theory Spec2Isabelle
  imports Main
begin

section \<open>In-app messaging: the orchestration class of \<^verbatim>\<open>InAppMessaging.ts\<close>\<close>

text \<open>
  The class \<^verbatim>\<open>InAppMessaging\<close> keeps four private fields (\<^verbatim>\<open>config\<close>,
  \<^verbatim>\<open>listeningForAnalyticEvents\<close>, \<^verbatim>\<open>pluggables\<close>, \<^verbatim>\<open>storageSynced\<close>) and talks to
  four collaborators: the storage object found under \<^verbatim>\<open>config.storage\<close>, the registered
  providers, the Hub, and the listener registry of \<^verbatim>\<open>EventListeners\<close>. The model is a
  record of the four fields plus a trace of the calls made to the collaborators, oldest
  first. Every method takes the record and returns its result together with the new
  record; a thrown error (or a rejected promise) is the \<open>Inl\<close> branch of the result.
\<close>

subsection \<open>Values\<close>

datatype error = TypeError | SyntaxError | StorageError | ProviderError

datatype storage_op = Sync | GetItem string | SetItem string string | RemoveItem string

text \<open>
  Modelled from the spec: the storage capability (\<^verbatim>\<open>StorageHelper\<close> of the core package
  is not among the sources). It is a key-value store of texts with the operations
  \<^verbatim>\<open>getItem\<close>, \<^verbatim>\<open>setItem\<close>, \<^verbatim>\<open>removeItem\<close> and an optional \<^verbatim>\<open>sync\<close>. Any call may
  throw: \<open>fails st n op\<close> says whether the call number \<open>n\<close> made to this storage, being
  \<open>op\<close>, throws; \<open>ticks\<close> counts the calls made so far. A call that throws leaves the
  stored texts as they were.
\<close>

record storage =
  items :: "(string \<times> string) list"
  has_sync :: bool
  fails :: "nat \<Rightarrow> storage_op \<Rightarrow> bool"
  ticks :: nat

text \<open>
  \<^verbatim>\<open>config\<close> is a \<^verbatim>\<open>Record<string, any>\<close>, messages and events are \<^verbatim>\<open>any\<close>: one type
  of JavaScript values serves for all of them. Numbers are integers here, objects are
  association lists with distinct keys, and a storage object is a value of its own.
\<close>

datatype jsval =
    JUndefined
  | JNull
  | JBool bool
  | JNum int
  | JStr string
  | JArr "jsval list"
  | JObj "(string \<times> jsval) list"
  | JStorage storage

type_synonym object = "(string \<times> jsval) list"

fun truthy :: "jsval \<Rightarrow> bool" where
  "truthy JUndefined = False"
| "truthy JNull = False"
| "truthy (JBool b) = b"
| "truthy (JNum n) = (n \<noteq> 0)"
| "truthy (JStr cs) = (cs \<noteq> [])"
| "truthy (JArr vs) = True"
| "truthy (JObj kvs) = True"
| "truthy (JStorage st) = True"

text \<open>\<^verbatim>\<open>o[k]\<close>: the value under the key, \<^verbatim>\<open>undefined\<close> when the key is absent.\<close>

definition obj_get :: "object \<Rightarrow> string \<Rightarrow> jsval" where
  "obj_get kvs k = (case map_of kvs k of None \<Rightarrow> JUndefined | Some v \<Rightarrow> v)"

text \<open>\<^verbatim>\<open>o[k] = v\<close>: overwrite where the key is, append where it is not.\<close>

fun obj_set :: "string \<Rightarrow> jsval \<Rightarrow> object \<Rightarrow> object" where
  "obj_set k v [] = [(k, v)]"
| "obj_set k v ((k', v') # kvs) =
     (if k' = k then (k, v) # kvs else (k', v') # obj_set k v kvs)"

text \<open>The rest pattern \<^verbatim>\<open>{k = ..., ...rest}\<close>: every entry but those under \<open>k\<close>.\<close>

definition obj_delete :: "string \<Rightarrow> object \<Rightarrow> object" where
  "obj_delete k kvs = filter (\<lambda>kv. fst kv \<noteq> k) kvs"

text \<open>The spread \<^verbatim>\<open>{...a, ...b}\<close>: the entries of \<open>b\<close> written onto \<open>a\<close>, in order.\<close>

fun obj_assign :: "object \<Rightarrow> object \<Rightarrow> object" where
  "obj_assign a [] = a"
| "obj_assign a ((k, v) # b) = obj_assign (obj_set k v a) b"

fun show_nat :: "nat \<Rightarrow> string" where
  "show_nat n =
     (if n < 10 then [char_of (48 + n)]
      else show_nat (n div 10) @ [char_of (48 + n mod 10)])"

text \<open>
  What a spread copies out of a value: the entries of an object, the indexed elements of
  an array or a string, nothing for \<^verbatim>\<open>undefined\<close>, \<^verbatim>\<open>null\<close>, booleans and numbers. The
  methods of a storage object are not entries of the model.
\<close>

fun own_entries :: "jsval \<Rightarrow> object" where
  "own_entries (JObj kvs) = kvs"
| "own_entries (JArr vs) = zip (map show_nat [0..<length vs]) vs"
| "own_entries (JStr cs) = zip (map show_nat [0..<length cs]) (map (\<lambda>c. JStr [c]) cs)"
| "own_entries v = []"

text \<open>\<^verbatim>\<open>a ?? b\<close>\<close>

fun nullish :: "jsval \<Rightarrow> jsval \<Rightarrow> jsval" where
  "nullish JUndefined b = b"
| "nullish JNull b = b"
| "nullish a b = a"

subsection \<open>The storage capability\<close>

definition storage_sync :: "storage \<Rightarrow> (error + unit) \<times> storage" where
  "storage_sync st =
     (if fails st (ticks st) Sync then Inl StorageError else Inr (),
      st\<lparr>ticks := Suc (ticks st)\<rparr>)"

definition storage_getItem :: "string \<Rightarrow> storage \<Rightarrow> (error + string option) \<times> storage" where
  "storage_getItem key st =
     (if fails st (ticks st) (GetItem key) then Inl StorageError
      else Inr (map_of (items st) key),
      st\<lparr>ticks := Suc (ticks st)\<rparr>)"

definition storage_setItem :: "string \<Rightarrow> string \<Rightarrow> storage \<Rightarrow> (error + unit) \<times> storage" where
  "storage_setItem key txt st =
     (if fails st (ticks st) (SetItem key txt)
      then (Inl StorageError, st\<lparr>ticks := Suc (ticks st)\<rparr>)
      else (Inr (),
            st\<lparr>items := (key, txt) # filter (\<lambda>kv. fst kv \<noteq> key) (items st),
               ticks := Suc (ticks st)\<rparr>))"

definition storage_removeItem :: "string \<Rightarrow> storage \<Rightarrow> (error + unit) \<times> storage" where
  "storage_removeItem key st =
     (if fails st (ticks st) (RemoveItem key)
      then (Inl StorageError, st\<lparr>ticks := Suc (ticks st)\<rparr>)
      else (Inr (),
            st\<lparr>items := filter (\<lambda>kv. fst kv \<noteq> key) (items st),
               ticks := Suc (ticks st)\<rparr>))"

subsection \<open>Providers, the trace, the engine\<close>

text \<open>
  A provider (\<^verbatim>\<open>InAppMessagingProvider\<close>) is given by its three names and by what its
  methods answer; \<^verbatim>\<open>configure\<close> may throw, \<^verbatim>\<open>getInAppMessages\<close> and
  \<^verbatim>\<open>processInAppMessages\<close> may reject.
\<close>

record provider =
  getProviderName :: string
  getCategory :: string
  getSubCategory :: string
  pluggable_configure :: "jsval \<Rightarrow> error option"
  getInAppMessages :: "error + jsval"
  processInAppMessages :: "jsval \<Rightarrow> jsval \<Rightarrow> error + jsval list"

datatype message_event =
  MESSAGES_RECEIVED | MESSAGE_DISPLAYED | MESSAGE_DISMISSED | MESSAGE_ACTION_TAKEN

datatype call =
    StorageSync
  | StorageGetItem string
  | StorageSetItem string string
  | StorageRemoveItem string
  | ProviderConfigure string jsval
  | ProviderGetInAppMessages string
  | ProviderProcessInAppMessages string jsval jsval
  | NotifyMessageEventListeners jsval message_event
  | HubListen string

record inAppMessaging =
  config :: object
  listeningForAnalyticEvents :: bool
  pluggables :: "provider list"
  storageSynced :: bool
  trace :: "call list"

text \<open>
  What the class takes from outside: \<^verbatim>\<open>JSON.stringify\<close>, the decoder behind
  \<^verbatim>\<open>JSON.parse\<close>, and the provider that \<^verbatim>\<open>new AWSPinpointProvider()\<close> makes.
\<close>

record env =
  stringify :: "jsval \<Rightarrow> string"
  decode :: "string \<Rightarrow> error + jsval"
  AWSPinpointProvider :: provider

text \<open>\<^verbatim>\<open>JSON.parse\<close> throws a \<^verbatim>\<open>SyntaxError\<close> on the empty text.\<close>

definition JSON_parse :: "env \<Rightarrow> string \<Rightarrow> error + jsval" where
  "JSON_parse E txt = (if txt = [] then Inl SyntaxError else decode E txt)"

definition STORAGE_KEY_SUFFIX :: string where
  "STORAGE_KEY_SUFFIX = ''_inAppMessages''"

text \<open>The constructor; \<open>st\<close> is what \<^verbatim>\<open>new StorageHelper().getStorage()\<close> returns.\<close>

definition constructor :: "storage \<Rightarrow> inAppMessaging" where
  "constructor st =
     \<lparr>config = [(''storage'', JStorage st)],
      listeningForAnalyticEvents = False,
      pluggables = [],
      storageSynced = False,
      trace = []\<rparr>"

subsection \<open>The cache: syncStorage, getMessages, setMessages, removeMessages\<close>

text \<open>
  \<^verbatim>\<open>storage.sync\<close> on \<^verbatim>\<open>undefined\<close> or \<^verbatim>\<open>null\<close> throws a \<^verbatim>\<open>TypeError\<close>, inside the
  \<^verbatim>\<open>try\<close>; on any other value that is not a storage object the property is not a
  function. The \<^verbatim>\<open>catch\<close> logs and returns.
\<close>

definition syncStorage :: "inAppMessaging \<Rightarrow> (error + unit) \<times> inAppMessaging" where
  "syncStorage s =
     (case obj_get (config s) ''storage'' of
        JStorage st \<Rightarrow>
          if has_sync st then
            (let (r, st') = storage_sync st;
                 s1 = s\<lparr>config := obj_set ''storage'' (JStorage st') (config s),
                        trace := trace s @ [StorageSync]\<rparr>
             in case r of
                  Inl err \<Rightarrow> (Inr (), s1)
                | Inr u \<Rightarrow> (Inr (), s1\<lparr>storageSynced := True\<rparr>))
          else (Inr (), s\<lparr>storageSynced := True\<rparr>)
      | JUndefined \<Rightarrow> (Inr (), s)
      | JNull \<Rightarrow> (Inr (), s)
      | _ \<Rightarrow> (Inr (), s\<lparr>storageSynced := True\<rparr>))"

text \<open>The guard \<^verbatim>\<open>if (!this.storageSynced) await this.syncStorage()\<close> of the three methods.\<close>

definition sync_if_needed :: "inAppMessaging \<Rightarrow> (error + unit) \<times> inAppMessaging" where
  "sync_if_needed s = (if \<not> storageSynced s then syncStorage s else (Inr (), s))"

text \<open>
  A method call on \<^verbatim>\<open>config.storage\<close>: a \<^verbatim>\<open>TypeError\<close> unless the value is a storage
  object; the call is entered in the trace and the storage object is updated in place.
\<close>

definition call_getItem ::
  "string \<Rightarrow> inAppMessaging \<Rightarrow> (error + string option) \<times> inAppMessaging" where
  "call_getItem key s =
     (case obj_get (config s) ''storage'' of
        JStorage st \<Rightarrow>
          (let (r, st') = storage_getItem key st
           in (r, s\<lparr>config := obj_set ''storage'' (JStorage st') (config s),
                    trace := trace s @ [StorageGetItem key]\<rparr>))
      | _ \<Rightarrow> (Inl TypeError, s))"

definition call_setItem ::
  "string \<Rightarrow> string \<Rightarrow> inAppMessaging \<Rightarrow> (error + unit) \<times> inAppMessaging" where
  "call_setItem key txt s =
     (case obj_get (config s) ''storage'' of
        JStorage st \<Rightarrow>
          (let (r, st') = storage_setItem key txt st
           in (r, s\<lparr>config := obj_set ''storage'' (JStorage st') (config s),
                    trace := trace s @ [StorageSetItem key txt]\<rparr>))
      | _ \<Rightarrow> (Inl TypeError, s))"

definition call_removeItem ::
  "string \<Rightarrow> inAppMessaging \<Rightarrow> (error + unit) \<times> inAppMessaging" where
  "call_removeItem key s =
     (case obj_get (config s) ''storage'' of
        JStorage st \<Rightarrow>
          (let (r, st') = storage_removeItem key st
           in (r, s\<lparr>config := obj_set ''storage'' (JStorage st') (config s),
                    trace := trace s @ [StorageRemoveItem key]\<rparr>))
      | _ \<Rightarrow> (Inl TypeError, s))"

text \<open>The \<^verbatim>\<open>try\<close> block of \<^verbatim>\<open>getMessages\<close>.\<close>

definition getMessages_try ::
  "env \<Rightarrow> string \<Rightarrow> inAppMessaging \<Rightarrow> (error + jsval) \<times> inAppMessaging" where
  "getMessages_try E key s =
     (case sync_if_needed s of
        (Inl err, s1) \<Rightarrow> (Inl err, s1)
      | (Inr u, s1) \<Rightarrow>
          (case call_getItem key s1 of
             (Inl err, s2) \<Rightarrow> (Inl err, s2)
           | (Inr None, s2) \<Rightarrow> (Inr (JArr []), s2)
           | (Inr (Some storedMessages), s2) \<Rightarrow>
               if storedMessages \<noteq> [] then (JSON_parse E storedMessages, s2)
               else (Inr (JArr []), s2)))"

text \<open>\<^verbatim>\<open>getMessages\<close>: the \<^verbatim>\<open>catch\<close> logs, and the method returns \<^verbatim>\<open>undefined\<close>.\<close>

definition getMessages ::
  "env \<Rightarrow> string \<Rightarrow> inAppMessaging \<Rightarrow> (error + jsval) \<times> inAppMessaging" where
  "getMessages E key s =
     (case getMessages_try E key s of
        (Inl err, s') \<Rightarrow> (Inr JUndefined, s')
      | (Inr v, s') \<Rightarrow> (Inr v, s'))"

definition setMessages_try ::
  "env \<Rightarrow> string \<Rightarrow> jsval \<Rightarrow> inAppMessaging \<Rightarrow> (error + unit) \<times> inAppMessaging" where
  "setMessages_try E key messages s =
     (case sync_if_needed s of
        (Inl err, s1) \<Rightarrow> (Inl err, s1)
      | (Inr u, s1) \<Rightarrow> call_setItem key (stringify E messages) s1)"

definition setMessages ::
  "env \<Rightarrow> string \<Rightarrow> jsval \<Rightarrow> inAppMessaging \<Rightarrow> (error + unit) \<times> inAppMessaging" where
  "setMessages E key messages s =
     (if \<not> truthy messages then (Inr (), s)
      else case setMessages_try E key messages s of
             (Inl err, s') \<Rightarrow> (Inr (), s')
           | (Inr u, s') \<Rightarrow> (Inr (), s'))"

definition removeMessages_try ::
  "string \<Rightarrow> inAppMessaging \<Rightarrow> (error + unit) \<times> inAppMessaging" where
  "removeMessages_try key s =
     (case sync_if_needed s of
        (Inl err, s1) \<Rightarrow> (Inl err, s1)
      | (Inr u, s1) \<Rightarrow> call_removeItem key s1)"

definition removeMessages ::
  "string \<Rightarrow> inAppMessaging \<Rightarrow> (error + unit) \<times> inAppMessaging" where
  "removeMessages key s =
     (case removeMessages_try key s of
        (Inl err, s') \<Rightarrow> (Inr (), s')
      | (Inr u, s') \<Rightarrow> (Inr (), s'))"

subsection \<open>The registry: getPluggable, addPluggable, removePluggable, configure\<close>

definition getPluggable :: "string \<Rightarrow> inAppMessaging \<Rightarrow> provider option" where
  "getPluggable providerName s =
     find (\<lambda>pluggable. getProviderName pluggable = providerName) (pluggables s)"

text \<open>
  \<^verbatim>\<open>addPluggable\<close>: the argument is \<open>None\<close> for a falsy \<^verbatim>\<open>pluggable\<close>. The provider is
  pushed before it is configured, so a \<^verbatim>\<open>configure\<close> that throws leaves it registered.
  The argument of \<^verbatim>\<open>configure\<close> is \<^verbatim>\<open>this.config[pluggable.getProviderName()]\<close>.
\<close>

definition addPluggable ::
  "provider option \<Rightarrow> inAppMessaging \<Rightarrow> (error + unit) \<times> inAppMessaging" where
  "addPluggable pluggable s =
     (case pluggable of
        None \<Rightarrow> (Inr (), s)
      | Some p \<Rightarrow>
          if getCategory p = ''Notifications'' \<and> getSubCategory p = ''InAppMessaging'' then
            (let arg = obj_get (config s) (getProviderName p);
                 s1 = s\<lparr>pluggables := pluggables s @ [p],
                        trace := trace s @ [ProviderConfigure (getProviderName p) arg]\<rparr>
             in case pluggable_configure p arg of
                  Some err \<Rightarrow> (Inl err, s1)
                | None \<Rightarrow> (Inr (), s1))
          else (Inr (), s))"

text \<open>\<^verbatim>\<open>splice(index, 1)\<close> at the first provider of that name.\<close>

fun remove_first :: "string \<Rightarrow> provider list \<Rightarrow> provider list" where
  "remove_first providerName [] = []"
| "remove_first providerName (p # ps) =
     (if getProviderName p = providerName then ps else p # remove_first providerName ps)"

definition removePluggable :: "string \<Rightarrow> inAppMessaging \<Rightarrow> inAppMessaging" where
  "removePluggable providerName s =
     s\<lparr>pluggables := remove_first providerName (pluggables s)\<rparr>"

text \<open>
  The \<^verbatim>\<open>forEach\<close> of \<^verbatim>\<open>configure\<close>: each provider is configured with
  \<^verbatim>\<open>{...this.config, ...(this.config[name] ?? {})}\<close>; a provider that throws ends the loop.
\<close>

fun configure_each :: "object \<Rightarrow> provider list \<Rightarrow> call list \<Rightarrow> error option \<times> call list" where
  "configure_each cfg [] tr = (None, tr)"
| "configure_each cfg (p # ps) tr =
     (let arg = JObj (obj_assign cfg
                        (own_entries (nullish (obj_get cfg (getProviderName p)) (JObj []))));
          tr1 = tr @ [ProviderConfigure (getProviderName p) arg]
      in case pluggable_configure p arg of
           Some err \<Rightarrow> (Some err, tr1)
         | None \<Rightarrow> configure_each cfg ps tr1)"

text \<open>
  The parameter \<^verbatim>\<open>listenForAnalyticsEvents = true\<close>: the default applies when the key is
  absent or holds \<^verbatim>\<open>undefined\<close>.
\<close>

definition listenForAnalyticsEvents :: "object \<Rightarrow> bool" where
  "listenForAnalyticsEvents cfg =
     (case map_of cfg ''listenForAnalyticsEvents'' of
        None \<Rightarrow> True
      | Some JUndefined \<Rightarrow> True
      | Some v \<Rightarrow> truthy v)"

definition configure ::
  "env \<Rightarrow> object \<Rightarrow> inAppMessaging \<Rightarrow> (error + object) \<times> inAppMessaging" where
  "configure E cfg s =
     (let rest = obj_delete ''listenForAnalyticsEvents'' cfg;
          s1 = s\<lparr>config := obj_assign (config s) rest\<rparr>;
          (r, tr) = configure_each (config s1) (pluggables s1) (trace s1);
          s2 = s1\<lparr>trace := tr\<rparr>
      in case r of
           Some err \<Rightarrow> (Inl err, s2)
         | None \<Rightarrow>
             (case (if length (pluggables s2) = 0
                    then addPluggable (Some (AWSPinpointProvider E)) s2
                    else (Inr (), s2)) of
                (Inl err, s3) \<Rightarrow> (Inl err, s3)
              | (Inr u, s3) \<Rightarrow>
                  (let s4 = (if listenForAnalyticsEvents cfg \<and> \<not> listeningForAnalyticEvents s3
                             then s3\<lparr>listeningForAnalyticEvents := True,
                                     trace := trace s3 @ [HubListen ''analytics'']\<rparr>
                             else s3)
                   in (Inr (config s4), s4))))"

subsection \<open>The pipeline: syncMessages, clearMessages, dispatchEvent\<close>

text \<open>
  \<^verbatim>\<open>Promise.all(this.pluggables.map(async pluggable => ...))\<close>: every branch is started,
  whatever the others do, and the results are collected by index. The three functions of
  this section follow one schedule, the one in which each branch runs to its end before
  the next starts; under it the first rejection in time is the first by index. The other
  schedules of \<^verbatim>\<open>dispatchEvent\<close> are in the section on schedules below.
\<close>

fun run_branches :: "('p \<Rightarrow> 's \<Rightarrow> 'r \<times> 's) \<Rightarrow> 'p list \<Rightarrow> 's \<Rightarrow> 'r list \<times> 's" where
  "run_branches f [] s = ([], s)"
| "run_branches f (p # ps) s =
     (case f p s of (r, s1) \<Rightarrow>
        (case run_branches f ps s1 of (rs, s2) \<Rightarrow> (r # rs, s2)))"

fun Promise_all :: "(error + 'a) list \<Rightarrow> error + 'a list" where
  "Promise_all [] = Inr []"
| "Promise_all (Inl err # rs) = Inl err"
| "Promise_all (Inr v # rs) =
     (case Promise_all rs of Inl err \<Rightarrow> Inl err | Inr vs \<Rightarrow> Inr (v # vs))"

definition syncMessages_branch ::
  "env \<Rightarrow> provider \<Rightarrow> inAppMessaging \<Rightarrow> (error + unit) \<times> inAppMessaging" where
  "syncMessages_branch E pluggable s =
     (let s1 = s\<lparr>trace := trace s @ [ProviderGetInAppMessages (getProviderName pluggable)]\<rparr>
      in case getInAppMessages pluggable of
           Inl err \<Rightarrow> (Inl err, s1)
         | Inr messages \<Rightarrow>
             setMessages E (getProviderName pluggable @ STORAGE_KEY_SUFFIX) messages s1)"

definition syncMessages :: "env \<Rightarrow> inAppMessaging \<Rightarrow> (error + unit) \<times> inAppMessaging" where
  "syncMessages E s =
     (case run_branches (syncMessages_branch E) (pluggables s) s of
        (rs, s') \<Rightarrow> (map_sum id (\<lambda>us. ()) (Promise_all rs), s'))"

definition clearMessages_branch ::
  "provider \<Rightarrow> inAppMessaging \<Rightarrow> (error + unit) \<times> inAppMessaging" where
  "clearMessages_branch pluggable s =
     removeMessages (getProviderName pluggable @ STORAGE_KEY_SUFFIX) s"

definition clearMessages :: "inAppMessaging \<Rightarrow> (error + unit) \<times> inAppMessaging" where
  "clearMessages s =
     (case run_branches clearMessages_branch (pluggables s) s of
        (rs, s') \<Rightarrow> (map_sum id (\<lambda>us. ()) (Promise_all rs), s'))"

definition dispatchEvent_branch ::
  "env \<Rightarrow> jsval \<Rightarrow> provider \<Rightarrow> inAppMessaging \<Rightarrow> (error + jsval list) \<times> inAppMessaging" where
  "dispatchEvent_branch E event pluggable s =
     (case getMessages E (getProviderName pluggable @ STORAGE_KEY_SUFFIX) s of
        (Inl err, s1) \<Rightarrow> (Inl err, s1)
      | (Inr messages, s1) \<Rightarrow>
          (processInAppMessages pluggable messages event,
           s1\<lparr>trace := trace s1 @
                [ProviderProcessInAppMessages (getProviderName pluggable) messages event]\<rparr>))"

text \<open>
  \<^verbatim>\<open>flatten\<close> of lodash removes one level of nesting: the per-provider arrays are
  concatenated, their elements are left as they are.
\<close>

definition flatten :: "'a list list \<Rightarrow> 'a list" where
  "flatten xss = concat xss"

definition dispatchEvent ::
  "env \<Rightarrow> jsval \<Rightarrow> inAppMessaging \<Rightarrow> (error + unit) \<times> inAppMessaging" where
  "dispatchEvent E event s =
     (case run_branches (dispatchEvent_branch E event) (pluggables s) s of
        (rs, s1) \<Rightarrow>
          (case Promise_all rs of
             Inl err \<Rightarrow> (Inl err, s1)
           | Inr messages \<Rightarrow>
               (let flattenedMessages = flatten messages
                in if length flattenedMessages \<noteq> 0
                   then (Inr (),
                         s1\<lparr>trace := trace s1 @
                              [NotifyMessageEventListeners (JArr flattenedMessages)
                                 MESSAGES_RECEIVED]\<rparr>)
                   else (Inr (), s1))))"

subsection \<open>The Hub listener and the notify methods\<close>

text \<open>
  \<^verbatim>\<open>analyticsListener\<close> takes the payload of a Hub capsule, \<^verbatim>\<open>{event, data}\<close>. The
  promise of \<^verbatim>\<open>dispatchEvent\<close> is not awaited: a rejection does not reach the Hub.
\<close>

record payload =
  event :: string
  data :: jsval

definition analyticsListener :: "env \<Rightarrow> payload \<Rightarrow> inAppMessaging \<Rightarrow> inAppMessaging" where
  "analyticsListener E pl s =
     (if event pl = ''record'' then snd (dispatchEvent E (data pl) s) else s)"

definition notifyMessageDisplayed :: "jsval \<Rightarrow> inAppMessaging \<Rightarrow> inAppMessaging" where
  "notifyMessageDisplayed message s =
     s\<lparr>trace := trace s @ [NotifyMessageEventListeners message MESSAGE_DISPLAYED]\<rparr>"

definition notifyMessageDismissed :: "jsval \<Rightarrow> inAppMessaging \<Rightarrow> inAppMessaging" where
  "notifyMessageDismissed message s =
     s\<lparr>trace := trace s @ [NotifyMessageEventListeners message MESSAGE_DISMISSED]\<rparr>"

definition notifyMessageActionTaken :: "jsval \<Rightarrow> inAppMessaging \<Rightarrow> inAppMessaging" where
  "notifyMessageActionTaken message s =
     s\<lparr>trace := trace s @ [NotifyMessageEventListeners message MESSAGE_ACTION_TAKEN]\<rparr>"

subsection \<open>Runs of the engine\<close>

text \<open>
  What a host can do with an engine: call a public method, or publish on the Hub, which
  reaches \<^verbatim>\<open>analyticsListener\<close> once \<^verbatim>\<open>configure\<close> has subscribed it. A run is a list of
  such actions applied to a constructed engine; an action that throws leaves the state
  it had reached.
\<close>

datatype action =
    Configure object
  | AddPluggable "provider option"
  | RemovePluggable string
  | SyncMessages
  | ClearMessages
  | DispatchEvent jsval
  | NotifyMessageDisplayed jsval
  | NotifyMessageDismissed jsval
  | NotifyMessageActionTaken jsval
  | HubAnalytics payload

fun step :: "env \<Rightarrow> inAppMessaging \<Rightarrow> action \<Rightarrow> inAppMessaging" where
  "step E s (Configure cfg) = snd (configure E cfg s)"
| "step E s (AddPluggable p) = snd (addPluggable p s)"
| "step E s (RemovePluggable n) = removePluggable n s"
| "step E s SyncMessages = snd (syncMessages E s)"
| "step E s ClearMessages = snd (clearMessages s)"
| "step E s (DispatchEvent ev) = snd (dispatchEvent E ev s)"
| "step E s (NotifyMessageDisplayed m) = notifyMessageDisplayed m s"
| "step E s (NotifyMessageDismissed m) = notifyMessageDismissed m s"
| "step E s (NotifyMessageActionTaken m) = notifyMessageActionTaken m s"
| "step E s (HubAnalytics pl) =
     (if listeningForAnalyticEvents s then analyticsListener E pl s else s)"

definition run :: "env \<Rightarrow> storage \<Rightarrow> action list \<Rightarrow> inAppMessaging" where
  "run E st acts = foldl (step E) (constructor st) acts"

subsection \<open>Observations on an engine\<close>

text \<open>The number of \<^verbatim>\<open>storage.sync()\<close> calls made so far.\<close>

fun is_StorageSync :: "call \<Rightarrow> bool" where
  "is_StorageSync StorageSync = True"
| "is_StorageSync c = False"

definition sync_calls :: "inAppMessaging \<Rightarrow> nat" where
  "sync_calls s = length (filter is_StorageSync (trace s))"




text \<open>
  The three cache operations as state transformers, to speak about any of them. A write
  reaches the storage only when its messages pass the guard \<^verbatim>\<open>if (!messages) return\<close>.
\<close>

datatype cache_request = Read string | Write string jsval | Clear string

fun cache_op :: "env \<Rightarrow> cache_request \<Rightarrow> inAppMessaging \<Rightarrow> inAppMessaging" where
  "cache_op E (Read key) s = snd (getMessages E key s)"
| "cache_op E (Write key messages) s = snd (setMessages E key messages s)"
| "cache_op E (Clear key) s = snd (removeMessages key s)"

fun reaches_storage :: "cache_request \<Rightarrow> bool" where
  "reaches_storage (Write key messages) = truthy messages"
| "reaches_storage c = True"

text \<open>The test of \<^verbatim>\<open>addPluggable\<close> on a provider.\<close>

definition accepted :: "provider \<Rightarrow> bool" where
  "accepted p \<longleftrightarrow> getCategory p = ''Notifications'' \<and> getSubCategory p = ''InAppMessaging''"

text \<open>An action that hands \<^verbatim>\<open>configure\<close> a \<^verbatim>\<open>storage\<close> key.\<close>

fun overrides_storage :: "action \<Rightarrow> bool" where
  "overrides_storage (Configure cfg) = (''storage'' \<in> fst ` set cfg)"
| "overrides_storage a = False"

subsection \<open>dispatchEvent under any schedule\<close>

text \<open>
  The async callbacks that \<^verbatim>\<open>dispatchEvent\<close> hands to \<^verbatim>\<open>Promise.all\<close> are all started
  before any of them resumes, and each resumes after an \<^verbatim>\<open>await\<close> at a moment the
  engine does not choose. A branch is at one of six points: not started; suspended in
  \<^verbatim>\<open>syncStorage\<close> on \<^verbatim>\<open>await storage.sync()\<close>, the call made and its outcome pending;
  suspended in \<^verbatim>\<open>getMessages\<close> on \<^verbatim>\<open>await this.syncStorage()\<close>; suspended in the callback
  on \<^verbatim>\<open>await this.getMessages(key)\<close>, the messages read; waiting for what
  \<^verbatim>\<open>processInAppMessages\<close>, now called, will answer; settled, with the messages the
  provider was called with and its answer. A schedule is any order in which the branches
  take their steps; the order the code follows on a given day is one of them.
\<close>

datatype branch =
    Start
  | AwaitSync "error + unit"
  | AwaitSyncStorage
  | AwaitGetMessages jsval
  | AwaitProcessInAppMessages jsval "error + jsval list"
  | Settled jsval "error + jsval list"

text \<open>
  \<^verbatim>\<open>syncStorage\<close> up to its \<^verbatim>\<open>await\<close>: with a \<^verbatim>\<open>sync\<close> function the call is made and
  the method suspends (\<open>Some\<close> of the outcome); otherwise it runs to its end (\<open>None\<close>).
  Then \<^verbatim>\<open>syncStorage\<close> from its \<^verbatim>\<open>await\<close> on, and \<^verbatim>\<open>getMessages\<close> from its guard on,
  \<^verbatim>\<open>catch\<close> included.
\<close>

definition syncStorage_begin :: "inAppMessaging \<Rightarrow> (error + unit) option \<times> inAppMessaging" where
  "syncStorage_begin s =
     (case obj_get (config s) ''storage'' of
        JStorage st \<Rightarrow>
          if has_sync st then
            (let (r, st') = storage_sync st
             in (Some r, s\<lparr>config := obj_set ''storage'' (JStorage st') (config s),
                          trace := trace s @ [StorageSync]\<rparr>))
          else (None, s\<lparr>storageSynced := True\<rparr>)
      | JUndefined \<Rightarrow> (None, s)
      | JNull \<Rightarrow> (None, s)
      | _ \<Rightarrow> (None, s\<lparr>storageSynced := True\<rparr>))"

definition syncStorage_resume :: "error + unit \<Rightarrow> inAppMessaging \<Rightarrow> inAppMessaging" where
  "syncStorage_resume r s = (case r of Inl err \<Rightarrow> s | Inr u \<Rightarrow> s\<lparr>storageSynced := True\<rparr>)"

definition getMessages_read :: "env \<Rightarrow> string \<Rightarrow> inAppMessaging \<Rightarrow> jsval \<times> inAppMessaging" where
  "getMessages_read E key s =
     (case call_getItem key s of
        (Inl err, s2) \<Rightarrow> (JUndefined, s2)
      | (Inr None, s2) \<Rightarrow> (JArr [], s2)
      | (Inr (Some storedMessages), s2) \<Rightarrow>
          if storedMessages \<noteq> [] then
            (case JSON_parse E storedMessages of
               Inl err \<Rightarrow> (JUndefined, s2)
             | Inr v \<Rightarrow> (v, s2))
          else (JArr [], s2))"

text \<open>
  A call of \<^verbatim>\<open>dispatchEvent\<close> under way: the engine, the branches by registry index, and
  the first rejection so far, the one \<^verbatim>\<open>Promise.all\<close> rejects with.
\<close>

record dispatching =
  engine :: inAppMessaging
  branches :: "branch list"
  rejection :: "error option"

text \<open>
  One tick: branch \<open>i\<close> runs from where it is suspended to its next \<^verbatim>\<open>await\<close>. The
  guard \<^verbatim>\<open>!this.storageSynced\<close> is read when the branch starts. A tick for a settled
  branch, or for no branch, changes nothing.
\<close>

definition tick :: "env \<Rightarrow> jsval \<Rightarrow> provider list \<Rightarrow> dispatching \<Rightarrow> nat \<Rightarrow> dispatching" where
  "tick E ev ps d i =
     (if i < length ps \<and> i < length (branches d) then
        (let pluggable = ps ! i;
             key = getProviderName pluggable @ STORAGE_KEY_SUFFIX;
             s = engine d
         in case branches d ! i of
              Start \<Rightarrow>
                if \<not> storageSynced s then
                  (case syncStorage_begin s of
                     (Some r, s') \<Rightarrow> d\<lparr>engine := s', branches := (branches d)[i := AwaitSync r]\<rparr>
                   | (None, s') \<Rightarrow> d\<lparr>engine := s', branches := (branches d)[i := AwaitSyncStorage]\<rparr>)
                else
                  (case getMessages_read E key s of
                     (messages, s') \<Rightarrow>
                       d\<lparr>engine := s', branches := (branches d)[i := AwaitGetMessages messages]\<rparr>)
            | AwaitSync r \<Rightarrow>
                d\<lparr>engine := syncStorage_resume r s,
                  branches := (branches d)[i := AwaitSyncStorage]\<rparr>
            | AwaitSyncStorage \<Rightarrow>
                (case getMessages_read E key s of
                   (messages, s') \<Rightarrow>
                     d\<lparr>engine := s', branches := (branches d)[i := AwaitGetMessages messages]\<rparr>)
            | AwaitGetMessages messages \<Rightarrow>
                d\<lparr>engine := s\<lparr>trace := trace s @
                         [ProviderProcessInAppMessages (getProviderName pluggable) messages ev]\<rparr>,
                  branches := (branches d)
                     [i := AwaitProcessInAppMessages messages
                             (processInAppMessages pluggable messages ev)]\<rparr>
            | AwaitProcessInAppMessages messages r \<Rightarrow>
                d\<lparr>branches := (branches d)[i := Settled messages r],
                  rejection := (case rejection d of
                                  Some err \<Rightarrow> Some err
                                | None \<Rightarrow> (case r of Inl err \<Rightarrow> Some err | Inr ms \<Rightarrow> None))\<rparr>
            | Settled messages r \<Rightarrow> d)
      else d)"

fun is_Settled :: "branch \<Rightarrow> bool" where
  "is_Settled (Settled messages r) = True"
| "is_Settled b = False"



fun branch_result :: "branch \<Rightarrow> jsval list" where
  "branch_result (Settled messages (Inr ms)) = ms"
| "branch_result b = []"


text \<open>
  \<^verbatim>\<open>dispatchEvent\<close> under a schedule, the list of the branches that resume, in order.
  The providers are those registered when the method is called. Once every branch has
  settled the method ends: rejected when a branch rejected, otherwise with the results
  flattened by registry index and published when there are any. A schedule that leaves a
  branch unsettled gives no result.
\<close>

definition dispatchEvent_start :: "inAppMessaging \<Rightarrow> dispatching" where
  "dispatchEvent_start s =
     \<lparr>engine = s, branches = replicate (length (pluggables s)) Start, rejection = None\<rparr>"

definition dispatchEvent_finish :: "dispatching \<Rightarrow> (error + unit) \<times> inAppMessaging" where
  "dispatchEvent_finish d =
     (case rejection d of
        Some err \<Rightarrow> (Inl err, engine d)
      | None \<Rightarrow>
          (let flattenedMessages = flatten (map branch_result (branches d))
           in if length flattenedMessages \<noteq> 0
              then (Inr (),
                    (engine d)\<lparr>trace := trace (engine d) @
                       [NotifyMessageEventListeners (JArr flattenedMessages) MESSAGES_RECEIVED]\<rparr>)
              else (Inr (), engine d)))"

definition dispatchEvent_scheduled ::
  "env \<Rightarrow> jsval \<Rightarrow> nat list \<Rightarrow> inAppMessaging \<Rightarrow> ((error + unit) \<times> inAppMessaging) option" where
  "dispatchEvent_scheduled E ev schedule s =
     (let d = foldl (tick E ev (pluggables s)) (dispatchEvent_start s) schedule
      in if list_all is_Settled (branches d) then Some (dispatchEvent_finish d) else None)"




subsection \<open>Example collaborators\<close>

text \<open>
  Storages: one that syncs and never fails, one without \<^verbatim>\<open>sync\<close>, one whose every call
  throws, one holding a text that does not parse, and one whose first call throws.
\<close>

definition memory_storage :: storage where
  "memory_storage = \<lparr>items = [], has_sync = True, fails = (\<lambda>n op. False), ticks = 0\<rparr>"

definition local_storage :: storage where
  "local_storage = memory_storage\<lparr>has_sync := False\<rparr>"

definition failing_storage :: storage where
  "failing_storage = memory_storage\<lparr>fails := (\<lambda>n op. True)\<rparr>"

definition corrupt_storage :: storage where
  "corrupt_storage = memory_storage\<lparr>items := [(''p_inAppMessages'', ''{oops'')]\<rparr>"

definition flaky_storage :: storage where
  "flaky_storage = memory_storage\<lparr>fails := (\<lambda>n op. n = 0)\<rparr>"

text \<open>
  A provider that passes the test of \<^verbatim>\<open>addPluggable\<close> and answers every event with the
  same messages, and one of another subcategory.
\<close>

definition example_provider :: "string \<Rightarrow> jsval list \<Rightarrow> provider" where
  "example_provider name answer =
     \<lparr>getProviderName = name,
      getCategory = ''Notifications'',
      getSubCategory = ''InAppMessaging'',
      pluggable_configure = (\<lambda>cfg. None),
      getInAppMessages = Inr (JArr answer),
      processInAppMessages = (\<lambda>messages event. Inr answer)\<rparr>"

definition wrong_provider :: provider where
  "wrong_provider = (example_provider ''push'' [])\<lparr>getSubCategory := ''PushNotification''\<rparr>"

text \<open>
  A small codec: arrays of texts are written element by element between brackets, and
  the decoder knows the two texts the examples store.
\<close>

definition example_env :: env where
  "example_env =
     \<lparr>stringify =
        (\<lambda>v. case v of
               JArr vs \<Rightarrow>
                 ''['' @ concat (map (\<lambda>m. case m of JStr cs \<Rightarrow> cs @ '';'' | _ \<Rightarrow> ''?;'') vs) @ '']''
             | _ \<Rightarrow> ''null''),
      decode =
        (\<lambda>txt. if txt = ''[]'' then Inr (JArr [])
               else if txt = ''[m1;m2;]'' then Inr (JArr [JStr ''m1'', JStr ''m2''])
               else Inl SyntaxError),
      AWSPinpointProvider = example_provider ''AWSPinpoint'' []\<rparr>"

text \<open>The event \<^verbatim>\<open>{event: "other", data: {}}\<close>.\<close>

definition other_event :: jsval where
  "other_event = JObj [(''event'', JStr ''other''), (''data'', JObj [])]"

text \<open>A provider whose \<^verbatim>\<open>processInAppMessages\<close> rejects.\<close>

definition rejecting_provider :: "string \<Rightarrow> error \<Rightarrow> provider" where
  "rejecting_provider name err =
     (example_provider name [])\<lparr>processInAppMessages := (\<lambda>messages event. Inl err)\<rparr>"

section \<open>Properties\<close>

subsection \<open>Unfolding at concrete engines\<close>

lemmas example_defs =
  memory_storage_def failing_storage_def corrupt_storage_def example_env_def example_provider_def

lemmas cache_defs =
  constructor_def getMessages_def getMessages_try_def setMessages_def setMessages_try_def
  removeMessages_def removeMessages_try_def sync_if_needed_def syncStorage_def
  call_getItem_def call_setItem_def call_removeItem_def
  storage_sync_def storage_getItem_def storage_setItem_def storage_removeItem_def
  obj_get_def JSON_parse_def STORAGE_KEY_SUFFIX_def

lemmas engine_defs =
  cache_defs addPluggable_def removePluggable_def configure_def listenForAnalyticsEvents_def
  obj_delete_def syncMessages_def syncMessages_branch_def clearMessages_def
  clearMessages_branch_def dispatchEvent_def dispatchEvent_branch_def flatten_def
  analyticsListener_def run_def

lemmas schedule_defs =
  dispatchEvent_scheduled_def dispatchEvent_start_def dispatchEvent_finish_def tick_def
  syncStorage_begin_def syncStorage_resume_def getMessages_read_def

subsection \<open>Objects\<close>

lemma obj_get_obj_set: "obj_get (obj_set k v kvs) k' = (if k' = k then v else obj_get kvs k')"
  by (induction kvs) (auto simp: obj_get_def)

lemma map_of_obj_set: "map_of (obj_set k v kvs) = (map_of kvs)(k \<mapsto> v)"
  by (induction kvs) (auto simp: fun_eq_iff)

lemma keys_obj_set: "fst ` set (obj_set k v kvs) = insert k (fst ` set kvs)"
  using arg_cong [OF map_of_obj_set, of dom k v kvs] by (simp add: dom_map_of_conv_image_fst)

lemma keys_obj_assign: "fst ` set (obj_assign a b) = fst ` set a \<union> fst ` set b"
  by (induction a b rule: obj_assign.induct) (auto simp: keys_obj_set)

lemma obj_get_obj_assign_other:
  "k \<notin> fst ` set b \<Longrightarrow> obj_get (obj_assign a b) k = obj_get a k"
  by (induction a b rule: obj_assign.induct) (auto simp: obj_get_obj_set)

lemma keys_obj_delete: "fst ` set (obj_delete k kvs) = fst ` set kvs - {k}"
  by (auto simp: obj_delete_def)

lemma obj_get_storage_key:
  "obj_get kvs k = JStorage st \<Longrightarrow> k \<in> fst ` set kvs"
  by (auto simp: obj_get_def split: option.splits dest: map_of_SomeD intro: rev_image_eqI)

lemma keys_storage_update:
  "obj_get cfg ''storage'' = JStorage st \<Longrightarrow>
   fst ` set (obj_set ''storage'' v cfg) = fst ` set cfg"
  using obj_get_storage_key [of cfg "''storage''" st] by (auto simp: keys_obj_set)

subsection \<open>The sync guard\<close>

lemma syncStorage_returns: "fst (syncStorage s) = Inr ()"
  by (auto simp: syncStorage_def storage_sync_def Let_def split: jsval.splits sum.splits prod.splits)

lemma sync_if_needed_returns: "fst (sync_if_needed s) = Inr ()"
  by (simp add: sync_if_needed_def syncStorage_returns)

lemma sync_if_needed_synced: "storageSynced s \<Longrightarrow> sync_if_needed s = (Inr (), s)"
  by (simp add: sync_if_needed_def)

lemma syncStorage_no_sync:
  "obj_get (config s) ''storage'' = JStorage st \<Longrightarrow> \<not> has_sync st \<Longrightarrow>
   syncStorage s = (Inr (), s\<lparr>storageSynced := True\<rparr>)"
  by (simp add: syncStorage_def)

lemma syncStorage_has_sync:
  "obj_get (config s) ''storage'' = JStorage st \<Longrightarrow> has_sync st \<Longrightarrow>
   syncStorage s =
     (Inr (), s\<lparr>config := obj_set ''storage'' (JStorage (st\<lparr>ticks := Suc (ticks st)\<rparr>)) (config s),
                trace := trace s @ [StorageSync],
                storageSynced := storageSynced s \<or> \<not> fails st (ticks st) Sync\<rparr>)"
  by (simp add: syncStorage_def storage_sync_def)

lemma sync_if_needed_frame:
  "pluggables (snd (sync_if_needed s)) = pluggables s"
  "listeningForAnalyticEvents (snd (sync_if_needed s)) = listeningForAnalyticEvents s"
  by (auto simp: sync_if_needed_def syncStorage_def storage_sync_def Let_def
      split: jsval.splits prod.splits sum.splits)

lemma sync_if_needed_storage:
  "obj_get (config s) ''storage'' = JStorage st \<Longrightarrow>
   \<exists>st'. obj_get (config (snd (sync_if_needed s))) ''storage'' = JStorage st'
       \<and> items st' = items st \<and> has_sync st' = has_sync st \<and> fails st' = fails st"
  by (auto simp: sync_if_needed_def syncStorage_def storage_sync_def obj_get_obj_set)

lemma sync_if_needed_attempt:
  assumes "\<not> storageSynced s" "obj_get (config s) ''storage'' = JStorage st" "has_sync st"
  shows "sync_calls (snd (sync_if_needed s)) = Suc (sync_calls s)"
    and "storageSynced (snd (sync_if_needed s)) = (\<not> fails st (ticks st) Sync)"
  using assms by (simp_all add: sync_if_needed_def syncStorage_has_sync sync_calls_def)

lemma keys_sync_if_needed:
  "fst ` set (config (snd (sync_if_needed s))) = fst ` set (config s)"
  by (auto simp: sync_if_needed_def syncStorage_def storage_sync_def Let_def keys_storage_update
      split: jsval.splits prod.splits sum.splits)

subsection \<open>The calls on the storage object\<close>

lemma call_getItem_frame:
  "storageSynced (snd (call_getItem key s)) = storageSynced s"
  "sync_calls (snd (call_getItem key s)) = sync_calls s"
  "pluggables (snd (call_getItem key s)) = pluggables s"
  "listeningForAnalyticEvents (snd (call_getItem key s)) = listeningForAnalyticEvents s"
  by (auto simp: call_getItem_def sync_calls_def storage_getItem_def split: jsval.splits prod.splits)

lemma call_setItem_frame:
  "storageSynced (snd (call_setItem key txt s)) = storageSynced s"
  "sync_calls (snd (call_setItem key txt s)) = sync_calls s"
  "pluggables (snd (call_setItem key txt s)) = pluggables s"
  "listeningForAnalyticEvents (snd (call_setItem key txt s)) = listeningForAnalyticEvents s"
  by (auto simp: call_setItem_def sync_calls_def storage_setItem_def split: jsval.splits prod.splits)

lemma call_removeItem_frame:
  "storageSynced (snd (call_removeItem key s)) = storageSynced s"
  "sync_calls (snd (call_removeItem key s)) = sync_calls s"
  "pluggables (snd (call_removeItem key s)) = pluggables s"
  "listeningForAnalyticEvents (snd (call_removeItem key s)) = listeningForAnalyticEvents s"
  by (auto simp: call_removeItem_def sync_calls_def storage_removeItem_def split: jsval.splits prod.splits)

lemma fst_call_getItem:
  "obj_get (config s) ''storage'' = JStorage st \<Longrightarrow>
   fst (call_getItem key s) =
     (if fails st (ticks st) (GetItem key) then Inl StorageError else Inr (map_of (items st) key))"
  by (simp add: call_getItem_def storage_getItem_def)

lemma fst_call_getItem_no_storage:
  "\<forall>st. obj_get (config s) ''storage'' \<noteq> JStorage st \<Longrightarrow>
   fst (call_getItem key s) = Inl TypeError"
  by (auto simp: call_getItem_def split: jsval.splits)


lemma trace_call_setItem:
  "obj_get (config s) ''storage'' = JStorage st \<Longrightarrow>
   trace (snd (call_setItem key txt s)) = trace s @ [StorageSetItem key txt]"
  by (simp add: call_setItem_def split: prod.splits)

lemma call_storage_kept:
  assumes "obj_get (config s) ''storage'' = JStorage st"
  shows "\<exists>st'. obj_get (config (snd (call_getItem key s))) ''storage'' = JStorage st'
            \<and> has_sync st' = has_sync st \<and> fails st' = fails st"
    and "\<exists>st'. obj_get (config (snd (call_setItem key txt s))) ''storage'' = JStorage st'
            \<and> has_sync st' = has_sync st \<and> fails st' = fails st"
    and "\<exists>st'. obj_get (config (snd (call_removeItem key s))) ''storage'' = JStorage st'
            \<and> has_sync st' = has_sync st \<and> fails st' = fails st"
  using assms
  by (auto simp: call_getItem_def call_setItem_def call_removeItem_def obj_get_obj_set
      storage_getItem_def storage_setItem_def storage_removeItem_def)

lemma call_setItem_stored:
  assumes "obj_get (config s) ''storage'' = JStorage st"
    and "\<not> fails st (ticks st) (SetItem key txt)"
  shows "\<exists>st'. obj_get (config (snd (call_setItem key txt s))) ''storage'' = JStorage st'
            \<and> map_of (items st') key = Some txt \<and> fails st' = fails st"
  using assms by (simp add: call_setItem_def storage_setItem_def obj_get_obj_set)

lemma keys_call:
  "fst ` set (config (snd (call_getItem key s))) = fst ` set (config s)"
  "fst ` set (config (snd (call_setItem key txt s))) = fst ` set (config s)"
  "fst ` set (config (snd (call_removeItem key s))) = fst ` set (config s)"
  by (auto simp: call_getItem_def call_setItem_def call_removeItem_def keys_storage_update
      split: jsval.splits prod.splits)

subsection \<open>The cache operations\<close>

lemma snd_getMessages:
  "snd (getMessages E key s) = snd (call_getItem key (snd (sync_if_needed s)))"
  using sync_if_needed_returns [of s]
  by (auto simp: getMessages_def getMessages_try_def split: prod.splits sum.splits option.splits)

lemma snd_setMessages:
  "truthy messages \<Longrightarrow>
   snd (setMessages E key messages s) =
   snd (call_setItem key (stringify E messages) (snd (sync_if_needed s)))"
  using sync_if_needed_returns [of s]
  by (auto simp: setMessages_def setMessages_try_def split: prod.splits sum.splits)

lemma snd_removeMessages:
  "snd (removeMessages key s) = snd (call_removeItem key (snd (sync_if_needed s)))"
  using sync_if_needed_returns [of s]
  by (auto simp: removeMessages_def removeMessages_try_def split: prod.splits sum.splits)

lemma fst_getMessages:
  "fst (getMessages E key s) =
     (case fst (call_getItem key (snd (sync_if_needed s))) of
        Inl err \<Rightarrow> Inr JUndefined
      | Inr None \<Rightarrow> Inr (JArr [])
      | Inr (Some txt) \<Rightarrow>
          if txt = [] then Inr (JArr [])
          else (case decode E txt of Inl err \<Rightarrow> Inr JUndefined | Inr v \<Rightarrow> Inr v))"
  using sync_if_needed_returns [of s]
  by (auto simp: getMessages_def getMessages_try_def JSON_parse_def
      split: prod.splits sum.splits option.splits)

lemma getMessages_returns: "\<exists>v. fst (getMessages E key s) = Inr v"
  by (auto simp: getMessages_def split: prod.splits sum.splits)

lemma setMessages_returns: "fst (setMessages E key messages s) = Inr ()"
  by (auto simp: setMessages_def split: prod.splits sum.splits)

lemma removeMessages_returns: "fst (removeMessages key s) = Inr ()"
  by (auto simp: removeMessages_def split: prod.splits sum.splits)

lemma cache_op_flag:
  "reaches_storage c \<Longrightarrow>
   storageSynced (cache_op E c s) = storageSynced (snd (sync_if_needed s))"
  by (cases c) (simp_all add: snd_getMessages snd_setMessages snd_removeMessages
      call_getItem_frame call_setItem_frame call_removeItem_frame)

lemma cache_op_sync_calls:
  "reaches_storage c \<Longrightarrow>
   sync_calls (cache_op E c s) = sync_calls (snd (sync_if_needed s))"
  by (cases c) (simp_all add: snd_getMessages snd_setMessages snd_removeMessages
      call_getItem_frame call_setItem_frame call_removeItem_frame)

lemma cache_op_noop: "\<not> reaches_storage c \<Longrightarrow> cache_op E c s = s"
  by (cases c) (simp_all add: setMessages_def)

lemma cache_op_storage_kept:
  assumes "obj_get (config s) ''storage'' = JStorage st"
  shows "\<exists>st'. obj_get (config (cache_op E c s)) ''storage'' = JStorage st'
            \<and> has_sync st' = has_sync st \<and> fails st' = fails st"
proof (cases "reaches_storage c")
  case False
  then show ?thesis using assms by (simp add: cache_op_noop)
next
  case True
  from sync_if_needed_storage [OF assms] obtain st1
    where st1: "obj_get (config (snd (sync_if_needed s))) ''storage'' = JStorage st1"
      "has_sync st1 = has_sync st" "fails st1 = fails st" by blast
  show ?thesis
  proof (cases c)
    case (Read key)
    then show ?thesis
      using call_storage_kept(1) [OF st1(1), of key] st1(2,3) by (auto simp: snd_getMessages)
  next
    case (Write key messages)
    then show ?thesis
      using call_storage_kept(2) [OF st1(1), of key "stringify E messages"] st1(2,3) True
      by (auto simp: snd_setMessages)
  next
    case (Clear key)
    then show ?thesis
      using call_storage_kept(3) [OF st1(1), of key] st1(2,3) by (auto simp: snd_removeMessages)
  qed
qed

lemma cache_op_attempt:
  assumes "\<not> storageSynced s" "reaches_storage c"
    "obj_get (config s) ''storage'' = JStorage st" "has_sync st"
  shows "sync_calls (cache_op E c s) = Suc (sync_calls s)"
    and "storageSynced (cache_op E c s) = (\<not> fails st (ticks st) Sync)"
  using assms by (simp_all add: cache_op_flag cache_op_sync_calls sync_if_needed_attempt)

lemma keys_cache_op:
  "fst ` set (config (cache_op E c s)) = fst ` set (config s)"
proof (cases "reaches_storage c")
  case True
  then show ?thesis
    by (cases c) (simp_all add: snd_getMessages snd_setMessages snd_removeMessages
        keys_call keys_sync_if_needed)
next
  case False
  then show ?thesis by (simp add: cache_op_noop)
qed

lemma same_storage_cache_op:
  "(\<exists>st'. obj_get (config s) ''storage'' = JStorage st'
        \<and> has_sync st' = has_sync st \<and> fails st' = fails st) \<Longrightarrow>
   (\<exists>st'. obj_get (config (cache_op E c s)) ''storage'' = JStorage st'
        \<and> has_sync st' = has_sync st \<and> fails st' = fails st)"
proof -
  assume "\<exists>st'. obj_get (config s) ''storage'' = JStorage st'
        \<and> has_sync st' = has_sync st \<and> fails st' = fails st"
  then obtain st1 where st1: "obj_get (config s) ''storage'' = JStorage st1"
    "has_sync st1 = has_sync st" "fails st1 = fails st" by blast
  from cache_op_storage_kept [OF st1(1), of E c] st1(2,3) show ?thesis by auto
qed

lemma cache_pluggables:
  "pluggables (snd (getMessages E key s)) = pluggables s"
  "pluggables (snd (setMessages E key messages s)) = pluggables s"
  "pluggables (snd (removeMessages key s)) = pluggables s"
proof -
  show "pluggables (snd (getMessages E key s)) = pluggables s"
    by (simp add: snd_getMessages call_getItem_frame sync_if_needed_frame)
  show "pluggables (snd (removeMessages key s)) = pluggables s"
    by (simp add: snd_removeMessages call_removeItem_frame sync_if_needed_frame)
  show "pluggables (snd (setMessages E key messages s)) = pluggables s"
  proof (cases "truthy messages")
    case True
    then show ?thesis
      by (simp add: snd_setMessages call_setItem_frame sync_if_needed_frame)
  next
    case False
    then show ?thesis by (simp add: setMessages_def)
  qed
qed

subsection \<open>Reading, writing and syncing the cache\<close>

text \<open>
  Claim C5. \<^verbatim>\<open>getMessages\<close> never raises to its caller, whatever the key, the
  engine and the storage. When the storage read throws (the storage call fails, or
  \<^verbatim>\<open>config.storage\<close> is not a storage object), or when the stored text does not parse,
  the error is caught and the method resolves to \<^verbatim>\<open>undefined\<close>, the "no result". When
  the read succeeds and the storage holds nothing under the key, the result is the empty
  array. The storage is taken as the read finds it, that is after the sync guard.
\<close>

theorem getMessages_fail_open:
  "(\<exists>v. fst (getMessages E key s) = Inr v)
   \<and> (\<forall>st. obj_get (config (snd (sync_if_needed s))) ''storage'' = JStorage st \<longrightarrow>
         (fails st (ticks st) (GetItem key) \<longrightarrow> fst (getMessages E key s) = Inr JUndefined)
       \<and> (\<not> fails st (ticks st) (GetItem key) \<longrightarrow>
            (map_of (items st) key = None \<longrightarrow> fst (getMessages E key s) = Inr (JArr []))
          \<and> (\<forall>txt err. map_of (items st) key = Some txt \<and> txt \<noteq> [] \<and> JSON_parse E txt = Inl err
                \<longrightarrow> fst (getMessages E key s) = Inr JUndefined)))
   \<and> ((\<forall>st. obj_get (config (snd (sync_if_needed s))) ''storage'' \<noteq> JStorage st) \<longrightarrow>
         fst (getMessages E key s) = Inr JUndefined)"
proof -
  have returns: "\<exists>v. fst (getMessages E key s) = Inr v"
    by (auto simp: getMessages_def split: prod.splits sum.splits)
  have no_storage: "fst (getMessages E key s) = Inr JUndefined"
    if "\<forall>st. obj_get (config (snd (sync_if_needed s))) ''storage'' \<noteq> JStorage st"
    using that by (simp add: fst_getMessages fst_call_getItem_no_storage)
  have read: "(fails st (ticks st) (GetItem key) \<longrightarrow> fst (getMessages E key s) = Inr JUndefined)
       \<and> (\<not> fails st (ticks st) (GetItem key) \<longrightarrow>
            (map_of (items st) key = None \<longrightarrow> fst (getMessages E key s) = Inr (JArr []))
          \<and> (\<forall>txt err. map_of (items st) key = Some txt \<and> txt \<noteq> [] \<and> JSON_parse E txt = Inl err
                \<longrightarrow> fst (getMessages E key s) = Inr JUndefined))"
    if "obj_get (config (snd (sync_if_needed s))) ''storage'' = JStorage st" for st
    by (auto simp: fst_getMessages fst_call_getItem [OF that] JSON_parse_def)
  from returns no_storage read show ?thesis by blast
qed

text \<open>
  On a constructed engine: nothing stored gives the empty array; a storage whose calls
  all throw, and a stored text that does not parse, give \<^verbatim>\<open>undefined\<close>.
\<close>

theorem getMessages_fail_open_witness:
  "fst (getMessages example_env ''p_inAppMessages'' (constructor memory_storage)) = Inr (JArr [])
   \<and> fst (getMessages example_env ''p_inAppMessages'' (constructor failing_storage)) = Inr JUndefined
   \<and> fst (getMessages example_env ''p_inAppMessages'' (constructor corrupt_storage)) = Inr JUndefined"
  using getMessages_fail_open [of example_env "''p_inAppMessages''" "constructor memory_storage"]
        getMessages_fail_open [of example_env "''p_inAppMessages''" "constructor failing_storage"]
        getMessages_fail_open [of example_env "''p_inAppMessages''" "constructor corrupt_storage"]
  by (simp add: example_defs cache_defs)

text \<open>
  Claim C6. For every provider name and every array of messages \<open>ms\<close>: writing \<open>ms\<close>
  under the provider's key and then reading the same key returns \<open>ms\<close>, provided the
  configured storage is a storage object none of whose calls fails and \<^verbatim>\<open>JSON.parse\<close>
  inverts \<^verbatim>\<open>JSON.stringify\<close> on \<open>ms\<close>.
\<close>

theorem cache_round_trip:
  assumes storage: "obj_get (config s) ''storage'' = JStorage st"
    and no_failure: "\<forall>n op. \<not> fails st n op"
    and inverse: "JSON_parse E (stringify E (JArr ms)) = Inr (JArr ms)"
  shows "fst (getMessages E (name @ STORAGE_KEY_SUFFIX)
                (snd (setMessages E (name @ STORAGE_KEY_SUFFIX) (JArr ms) s))) = Inr (JArr ms)"
proof -
  let ?key = "name @ STORAGE_KEY_SUFFIX" and ?txt = "stringify E (JArr ms)"
  let ?s1 = "snd (sync_if_needed s)"
  let ?s2 = "snd (call_setItem ?key ?txt ?s1)"
  let ?s3 = "snd (sync_if_needed ?s2)"
  from sync_if_needed_storage [OF storage] obtain st1
    where st1: "obj_get (config ?s1) ''storage'' = JStorage st1" "fails st1 = fails st"
    by blast
  from call_setItem_stored [OF st1(1), of ?key ?txt] st1(2) no_failure obtain st2
    where st2: "obj_get (config ?s2) ''storage'' = JStorage st2"
      "map_of (items st2) ?key = Some ?txt" "fails st2 = fails st"
    by auto
  from sync_if_needed_storage [OF st2(1)] st2(2,3) obtain st3
    where st3: "obj_get (config ?s3) ''storage'' = JStorage st3"
      "map_of (items st3) ?key = Some ?txt" "fails st3 = fails st"
    by auto
  have written: "snd (setMessages E ?key (JArr ms) s) = ?s2"
    by (simp add: snd_setMessages)
  have read: "fst (call_getItem ?key ?s3) = Inr (Some ?txt)"
    using no_failure by (simp add: fst_call_getItem [OF st3(1)] st3(2,3))
  have nonempty: "?txt \<noteq> []" and decoded: "decode E ?txt = Inr (JArr ms)"
    using inverse by (auto simp: JSON_parse_def split: if_splits)
  show ?thesis
    by (simp add: written fst_getMessages read nonempty decoded)
qed

text \<open>Two messages written for the provider \<^verbatim>\<open>p\<close> and read back.\<close>

theorem cache_round_trip_witness:
  "fst (getMessages example_env (''p'' @ STORAGE_KEY_SUFFIX)
         (snd (setMessages example_env (''p'' @ STORAGE_KEY_SUFFIX)
                (JArr [JStr ''m1'', JStr ''m2'']) (constructor memory_storage))))
   = Inr (JArr [JStr ''m1'', JStr ''m2''])"
proof -
  have h1: "obj_get (config (constructor memory_storage)) ''storage'' = JStorage memory_storage"
    by (simp add: constructor_def obj_get_def)
  have h2: "\<forall>n op. \<not> fails memory_storage n op"
    by (simp add: memory_storage_def)
  have h3: "JSON_parse example_env (stringify example_env (JArr [JStr ''m1'', JStr ''m2'']))
            = Inr (JArr [JStr ''m1'', JStr ''m2''])"
    by (simp add: JSON_parse_def example_env_def)
  show ?thesis by (rule cache_round_trip [OF h1 h2 h3])
qed

text \<open>
  Claim C7. \<^verbatim>\<open>setMessages\<close> with \<^verbatim>\<open>undefined\<close> (or \<^verbatim>\<open>null\<close>) for the messages returns
  at once: the whole engine, and with it the storage and every stored value, is as it
  was, and no call is made. The empty array is not absent: with a storage object
  configured, \<^verbatim>\<open>setItem\<close> is called with the key and the serialized empty array, right
  after the sync guard.
\<close>

theorem setMessages_absent_is_noop:
  "setMessages E key JUndefined s = (Inr (), s)
   \<and> setMessages E key JNull s = (Inr (), s)
   \<and> (\<forall>st. obj_get (config s) ''storage'' = JStorage st \<longrightarrow>
         trace (snd (setMessages E key (JArr []) s)) =
         trace (snd (sync_if_needed s)) @ [StorageSetItem key (stringify E (JArr []))])"
proof -
  have "trace (snd (setMessages E key (JArr []) s)) =
        trace (snd (sync_if_needed s)) @ [StorageSetItem key (stringify E (JArr []))]"
    if "obj_get (config s) ''storage'' = JStorage st" for st
  proof -
    from sync_if_needed_storage [OF that] obtain st'
      where "obj_get (config (snd (sync_if_needed s))) ''storage'' = JStorage st'" by blast
    then show ?thesis
      by (simp add: snd_setMessages trace_call_setItem)
  qed
  then show ?thesis by (simp add: setMessages_def)
qed

text \<open>
  On a constructed engine the empty array is synced and stored as \<^verbatim>\<open>[]\<close>, and
  \<^verbatim>\<open>undefined\<close> leaves the trace empty.
\<close>

theorem setMessages_absent_is_noop_witness:
  "trace (snd (setMessages example_env ''p_inAppMessages'' (JArr []) (constructor memory_storage)))
     = [StorageSync, StorageSetItem ''p_inAppMessages'' ''[]'']
   \<and> trace (snd (setMessages example_env ''p_inAppMessages'' JUndefined (constructor memory_storage)))
     = []"
  using setMessages_absent_is_noop
          [of example_env "''p_inAppMessages''" "constructor memory_storage"]
  by (simp add: example_defs cache_defs)

text \<open>
  Claim C8. Once \<^verbatim>\<open>storageSynced\<close> is true, a cache operation (read, write, clear) makes
  no call of \<^verbatim>\<open>sync\<close> and leaves the flag true. While it is false, a cache operation
  that reaches the storage (any read or clear, a write of present messages) on a storage
  with a \<^verbatim>\<open>sync\<close> function calls it exactly once; the flag is true afterwards exactly
  when that call succeeded. After a failed call the flag is still false, and the next
  cache operation calls \<^verbatim>\<open>sync\<close> again. Neither \<^verbatim>\<open>syncStorage\<close> nor any of the three
  operations raises.
\<close>

theorem storage_sync_idempotent_until_failure:
  "(storageSynced s \<longrightarrow>
      sync_calls (cache_op E c s) = sync_calls s \<and> storageSynced (cache_op E c s))
   \<and> (\<not> storageSynced s \<and> reaches_storage c
        \<and> obj_get (config s) ''storage'' = JStorage st \<and> has_sync st \<longrightarrow>
        sync_calls (cache_op E c s) = Suc (sync_calls s)
      \<and> storageSynced (cache_op E c s) = (\<not> fails st (ticks st) Sync)
      \<and> (fails st (ticks st) Sync \<and> reaches_storage c' \<longrightarrow>
            sync_calls (cache_op E c' (cache_op E c s)) = Suc (Suc (sync_calls s))))
   \<and> fst (syncStorage s) = Inr ()
   \<and> (\<exists>v. fst (getMessages E key s) = Inr v)
   \<and> fst (setMessages E key messages s) = Inr ()
   \<and> fst (removeMessages key s) = Inr ()"
proof -
  have synced: "sync_calls (cache_op E c s) = sync_calls s \<and> storageSynced (cache_op E c s)"
    if "storageSynced s"
  proof (cases "reaches_storage c")
    case True
    then show ?thesis
      using that by (simp add: cache_op_flag cache_op_sync_calls sync_if_needed_synced)
  next
    case False
    then show ?thesis using that by (simp add: cache_op_noop)
  qed
  have unsynced: "sync_calls (cache_op E c s) = Suc (sync_calls s)
      \<and> storageSynced (cache_op E c s) = (\<not> fails st (ticks st) Sync)
      \<and> (fails st (ticks st) Sync \<and> reaches_storage c' \<longrightarrow>
            sync_calls (cache_op E c' (cache_op E c s)) = Suc (Suc (sync_calls s)))"
    if h: "\<not> storageSynced s" "reaches_storage c"
      "obj_get (config s) ''storage'' = JStorage st" "has_sync st"
  proof -
    note first = cache_op_attempt [OF h, of E]
    have "sync_calls (cache_op E c' (cache_op E c s)) = Suc (Suc (sync_calls s))"
      if f: "fails st (ticks st) Sync" "reaches_storage c'"
    proof -
      from cache_op_storage_kept [OF h(3), of E c] obtain st'
        where st': "obj_get (config (cache_op E c s)) ''storage'' = JStorage st'"
          "has_sync st' = has_sync st" by blast
      have "\<not> storageSynced (cache_op E c s)" using first(2) f(1) by simp
      from cache_op_attempt(1) [OF this f(2) st'(1), of E] st'(2) h(4) first(1)
      show ?thesis by simp
    qed
    with first show ?thesis by blast
  qed
  from synced unsynced show ?thesis
    by (simp add: syncStorage_returns getMessages_returns setMessages_returns
        removeMessages_returns)
qed

text \<open>
  A storage whose first call throws: the read attempts the sync and leaves the flag
  false, the clear that follows syncs again, with success, and the write after it makes
  no further sync call.
\<close>

theorem storage_sync_idempotent_until_failure_witness:
  "sync_calls (cache_op example_env (Read ''p_inAppMessages'') (constructor flaky_storage)) = 1
   \<and> \<not> storageSynced (cache_op example_env (Read ''p_inAppMessages'') (constructor flaky_storage))
   \<and> sync_calls (cache_op example_env (Clear ''p_inAppMessages'')
        (cache_op example_env (Read ''p_inAppMessages'') (constructor flaky_storage))) = 2
   \<and> sync_calls (cache_op example_env (Write ''p_inAppMessages'' (JArr []))
        (cache_op example_env (Clear ''p_inAppMessages'')
          (cache_op example_env (Read ''p_inAppMessages'') (constructor flaky_storage)))) = 2"
  using storage_sync_idempotent_until_failure
          [where s = "constructor flaky_storage" and E = example_env
             and c = "Read ''p_inAppMessages''" and c' = "Clear ''p_inAppMessages''"
             and st = flaky_storage]
        storage_sync_idempotent_until_failure
          [where s = "cache_op example_env (Clear ''p_inAppMessages'')
                        (cache_op example_env (Read ''p_inAppMessages'') (constructor flaky_storage))"
             and E = example_env and c = "Write ''p_inAppMessages'' (JArr [])"]
  by (simp add: example_defs flaky_storage_def cache_defs sync_calls_def)

text \<open>
  Claim C10. With a storage object that has no \<^verbatim>\<open>sync\<close> function, \<^verbatim>\<open>syncStorage\<close>
  returns normally having set \<^verbatim>\<open>storageSynced\<close> and nothing else: no call is made, the
  trace and the storage are untouched. Each cache operation then does exactly what it
  does on the engine whose flag is already set.
\<close>

theorem sync_optional_absent:
  assumes "obj_get (config s) ''storage'' = JStorage st" and "\<not> has_sync st"
  shows "syncStorage s = (Inr (), s\<lparr>storageSynced := True\<rparr>)
     \<and> sync_if_needed s = (Inr (), s\<lparr>storageSynced := True\<rparr>)
     \<and> getMessages E key s = getMessages E key (s\<lparr>storageSynced := True\<rparr>)
     \<and> (truthy messages \<longrightarrow>
          setMessages E key messages s = setMessages E key messages (s\<lparr>storageSynced := True\<rparr>))
     \<and> removeMessages key s = removeMessages key (s\<lparr>storageSynced := True\<rparr>)"
proof -
  have 1: "syncStorage s = (Inr (), s\<lparr>storageSynced := True\<rparr>)"
    using assms by (rule syncStorage_no_sync)
  have 2: "sync_if_needed s = (Inr (), s\<lparr>storageSynced := True\<rparr>)"
    by (cases "storageSynced s") (simp_all add: sync_if_needed_def 1)
  have 3: "sync_if_needed (s\<lparr>storageSynced := True\<rparr>) = (Inr (), s\<lparr>storageSynced := True\<rparr>)"
    by (simp add: sync_if_needed_def)
  show ?thesis
    by (simp add: 1 2 3 getMessages_def getMessages_try_def setMessages_def setMessages_try_def
        removeMessages_def removeMessages_try_def)
qed

text \<open>A storage without \<^verbatim>\<open>sync\<close>: the read goes straight to \<^verbatim>\<open>getItem\<close>.\<close>

theorem sync_optional_absent_witness:
  "syncStorage (constructor local_storage) =
     (Inr (), (constructor local_storage)\<lparr>storageSynced := True\<rparr>)
   \<and> trace (snd (getMessages example_env ''p_inAppMessages'' (constructor local_storage))) =
       [StorageGetItem ''p_inAppMessages'']"
proof -
  have h1: "obj_get (config (constructor local_storage)) ''storage'' = JStorage local_storage"
    by (simp add: constructor_def obj_get_def)
  have h2: "\<not> has_sync local_storage"
    by (simp add: local_storage_def memory_storage_def)
  show ?thesis
    using sync_optional_absent [OF h1 h2, of example_env "''p_inAppMessages''" JNull]
    by (simp add: example_defs local_storage_def cache_defs)
qed

subsection \<open>Branches and the pipeline\<close>

lemma snd_run_branches_Cons:
  "snd (run_branches f (p # ps) s) = snd (run_branches f ps (snd (f p s)))"
  by (simp split: prod.splits)

lemma fst_run_branches_Cons:
  "fst (run_branches f (p # ps) s) = fst (f p s) # fst (run_branches f ps (snd (f p s)))"
  by (simp split: prod.splits)

lemma run_branches_frame:
  assumes "\<And>p s. g (snd (f p s)) = g s"
  shows "g (snd (run_branches f ps s)) = g s"
proof (induction ps arbitrary: s)
  case Nil
  show ?case by simp
next
  case (Cons p ps)
  show ?case
    unfolding snd_run_branches_Cons using Cons.IH [of "snd (f p s)"] assms [of p s] by simp
qed

lemma run_branches_preserves:
  assumes "\<And>p s. P s \<Longrightarrow> P (snd (f p s))" and "P s"
  shows "P (snd (run_branches f ps s))"
  using assms(2)
proof (induction ps arbitrary: s)
  case Nil
  then show ?case by simp
next
  case (Cons p ps)
  show ?case
    unfolding snd_run_branches_Cons by (rule Cons.IH) (rule assms(1) [OF Cons.prems])
qed

lemma snd_pipeline:
  "snd (syncMessages E s) = snd (run_branches (syncMessages_branch E) (pluggables s) s)"
  "snd (clearMessages s) = snd (run_branches clearMessages_branch (pluggables s) s)"
  by (simp_all add: syncMessages_def clearMessages_def split: prod.splits)

lemma branch_pluggables:
  "pluggables (snd (syncMessages_branch E p s)) = pluggables s"
  "pluggables (snd (clearMessages_branch p s)) = pluggables s"
  "pluggables (snd (dispatchEvent_branch E ev p s)) = pluggables s"
proof -
  show "pluggables (snd (syncMessages_branch E p s)) = pluggables s"
    by (simp add: syncMessages_branch_def Let_def cache_pluggables split: sum.splits)
  show "pluggables (snd (clearMessages_branch p s)) = pluggables s"
    by (simp add: clearMessages_branch_def cache_pluggables)
  show "pluggables (snd (dispatchEvent_branch E ev p s)) = pluggables s"
    using cache_pluggables(1) [of E "getProviderName p @ STORAGE_KEY_SUFFIX" s]
    by (auto simp: dispatchEvent_branch_def split: prod.splits sum.splits)
qed

lemma pipeline_pluggables:
  "pluggables (snd (syncMessages E s)) = pluggables s"
  "pluggables (snd (clearMessages s)) = pluggables s"
  "pluggables (snd (dispatchEvent E ev s)) = pluggables s"
proof -
  show "pluggables (snd (syncMessages E s)) = pluggables s"
    using run_branches_frame [of pluggables "syncMessages_branch E" "pluggables s" s]
    by (simp add: snd_pipeline branch_pluggables)
  show "pluggables (snd (clearMessages s)) = pluggables s"
    using run_branches_frame [of pluggables clearMessages_branch "pluggables s" s]
    by (simp add: snd_pipeline branch_pluggables)
  show "pluggables (snd (dispatchEvent E ev s)) = pluggables s"
    using run_branches_frame [of pluggables "dispatchEvent_branch E ev" "pluggables s" s]
    by (auto simp: dispatchEvent_def branch_pluggables Let_def split: prod.splits sum.splits)
qed

lemma snd_clearMessages_branch:
  "snd (clearMessages_branch p s) = cache_op E (Clear (getProviderName p @ STORAGE_KEY_SUFFIX)) s"
  by (simp add: clearMessages_branch_def)

lemma snd_dispatchEvent_branch:
  "\<exists>tr. snd (dispatchEvent_branch E ev p s) =
     (cache_op E (Read (getProviderName p @ STORAGE_KEY_SUFFIX)) s)\<lparr>trace := tr\<rparr>"
  using getMessages_returns [of E "getProviderName p @ STORAGE_KEY_SUFFIX" s]
  by (auto simp: dispatchEvent_branch_def split: prod.splits sum.splits)

lemma snd_syncMessages_branch:
  "\<exists>tr. snd (syncMessages_branch E p s) = s\<lparr>trace := tr\<rparr>
      \<or> (\<exists>messages. snd (syncMessages_branch E p s) =
            cache_op E (Write (getProviderName p @ STORAGE_KEY_SUFFIX) messages) (s\<lparr>trace := tr\<rparr>))"
  by (auto simp: syncMessages_branch_def Let_def split: sum.splits)

lemma snd_dispatchEvent:
  "\<exists>tr. snd (dispatchEvent E ev s) =
     (snd (run_branches (dispatchEvent_branch E ev) (pluggables s) s))\<lparr>trace := tr\<rparr>"
proof -
  have same: "r = r\<lparr>trace := trace r\<rparr>" for r :: inAppMessaging by simp
  show ?thesis
    by (auto simp: dispatchEvent_def Let_def split: prod.splits sum.splits intro: same)
qed

lemma pipeline_preserves:
  assumes cache: "\<And>E c s. Q (config s) \<Longrightarrow> Q (config (cache_op E c s))"
    and start: "Q (config s)"
  shows "Q (config (snd (syncMessages E s)))"
    and "Q (config (snd (clearMessages s)))"
    and "Q (config (snd (dispatchEvent E ev s)))"
proof -
  have sync: "Q (config (snd (syncMessages_branch E p r)))" if "Q (config r)" for p r
  proof -
    from snd_syncMessages_branch [of E p r] obtain tr
      where "snd (syncMessages_branch E p r) = r\<lparr>trace := tr\<rparr>
         \<or> (\<exists>messages. snd (syncMessages_branch E p r) =
               cache_op E (Write (getProviderName p @ STORAGE_KEY_SUFFIX) messages) (r\<lparr>trace := tr\<rparr>))"
      by blast
    then show ?thesis
    proof
      assume "snd (syncMessages_branch E p r) = r\<lparr>trace := tr\<rparr>"
      then show ?thesis using that by simp
    next
      assume "\<exists>messages. snd (syncMessages_branch E p r) =
               cache_op E (Write (getProviderName p @ STORAGE_KEY_SUFFIX) messages) (r\<lparr>trace := tr\<rparr>)"
      then obtain messages where "snd (syncMessages_branch E p r) =
               cache_op E (Write (getProviderName p @ STORAGE_KEY_SUFFIX) messages) (r\<lparr>trace := tr\<rparr>)"
        by blast
      then show ?thesis
        using cache [of "r\<lparr>trace := tr\<rparr>" E "Write (getProviderName p @ STORAGE_KEY_SUFFIX) messages"] that
        by simp
    qed
  qed
  have clear: "Q (config (snd (clearMessages_branch p r)))" if "Q (config r)" for p r
    using cache [OF that, of E "Clear (getProviderName p @ STORAGE_KEY_SUFFIX)"]
    by (simp add: snd_clearMessages_branch [of p r E])
  have dispatch: "Q (config (snd (dispatchEvent_branch E ev p r)))" if "Q (config r)" for p r
  proof -
    from snd_dispatchEvent_branch [of E ev p r] obtain tr
      where "snd (dispatchEvent_branch E ev p r) =
        (cache_op E (Read (getProviderName p @ STORAGE_KEY_SUFFIX)) r)\<lparr>trace := tr\<rparr>" by blast
    then show ?thesis
      using cache [OF that, of E "Read (getProviderName p @ STORAGE_KEY_SUFFIX)"] by simp
  qed
  show "Q (config (snd (syncMessages E s)))"
    unfolding snd_pipeline
    by (rule run_branches_preserves [where P = "\<lambda>s. Q (config s)"]) (simp_all add: sync start)
  show "Q (config (snd (clearMessages s)))"
    unfolding snd_pipeline
    by (rule run_branches_preserves [where P = "\<lambda>s. Q (config s)"]) (simp_all add: clear start)
  have "Q (config (snd (run_branches (dispatchEvent_branch E ev) (pluggables s) s)))"
    by (rule run_branches_preserves [where P = "\<lambda>s. Q (config s)"]) (simp_all add: dispatch start)
  then show "Q (config (snd (dispatchEvent E ev s)))"
    using snd_dispatchEvent [of E ev s] by auto
qed

subsection \<open>The registry\<close>

lemma addPluggable_pluggables:
  "pluggables (snd (addPluggable pluggable s)) =
     (case pluggable of
        None \<Rightarrow> pluggables s
      | Some p \<Rightarrow> if accepted p then pluggables s @ [p] else pluggables s)"
  by (auto simp: addPluggable_def accepted_def Let_def split: option.splits)

lemma set_remove_first: "set (remove_first n ps) \<subseteq> set ps"
  by (induction ps) auto

lemma configure_pluggables:
  "pluggables (snd (configure E cfg s)) = pluggables s
   \<or> pluggables (snd (configure E cfg s)) = pluggables s @ [AWSPinpointProvider E]
      \<and> accepted (AWSPinpointProvider E)"
  by (auto simp: configure_def Let_def addPluggable_def accepted_def
      split: prod.splits option.splits sum.splits if_splits)

lemma step_accepted:
  assumes "\<forall>p\<in>set (pluggables s). accepted p"
  shows "\<forall>p\<in>set (pluggables (step E s a)). accepted p"
proof (cases a)
  case (Configure cfg)
  then show ?thesis using assms configure_pluggables [of E cfg s] by auto
next
  case (AddPluggable p)
  then show ?thesis using assms by (auto simp: addPluggable_pluggables split: option.splits)
next
  case (RemovePluggable n)
  then show ?thesis using assms set_remove_first [of n "pluggables s"]
    by (auto simp: removePluggable_def)
qed (use assms in \<open>simp_all add: pipeline_pluggables analyticsListener_def
      notifyMessageDisplayed_def notifyMessageDismissed_def notifyMessageActionTaken_def\<close>)

lemma foldl_step_accepted:
  "\<forall>p\<in>set (pluggables s). accepted p \<Longrightarrow>
   \<forall>p\<in>set (pluggables (foldl (step E) s acts)). accepted p"
proof (induction acts arbitrary: s)
  case Nil
  then show ?case by simp
next
  case (Cons a acts)
  from Cons.IH [OF step_accepted [OF Cons.prems, of E a]] show ?case by simp
qed

text \<open>
  Claim C3. After any run of a constructed engine, every provider in \<^verbatim>\<open>pluggables\<close> has
  category \<^verbatim>\<open>Notifications\<close> and subcategory \<^verbatim>\<open>InAppMessaging\<close>. \<^verbatim>\<open>addPluggable\<close> with a
  provider that fails either test, or with no provider at all, returns normally and
  leaves the whole engine, the registry included, as it was.
\<close>

theorem registry_only_holds_accepted_providers:
  "(\<forall>p\<in>set (pluggables (run E st acts)).
       getCategory p = ''Notifications'' \<and> getSubCategory p = ''InAppMessaging'')
   \<and> (getCategory p \<noteq> ''Notifications'' \<or> getSubCategory p \<noteq> ''InAppMessaging'' \<longrightarrow>
        addPluggable (Some p) s = (Inr (), s))
   \<and> addPluggable None s = (Inr (), s)"
proof -
  have "\<forall>p\<in>set (pluggables (run E st acts)). accepted p"
    unfolding run_def by (rule foldl_step_accepted) (simp add: constructor_def)
  then show ?thesis
    by (auto simp: accepted_def addPluggable_def)
qed

text \<open>
  A provider of another subcategory is dropped, \<^verbatim>\<open>configure\<close> on the empty registry
  adds the default provider, and an accepted provider is appended after it.
\<close>

theorem registry_only_holds_accepted_providers_witness:
  "map getProviderName (pluggables (run example_env memory_storage
       [AddPluggable (Some wrong_provider), Configure [],
        AddPluggable (Some (example_provider ''p'' [])), AddPluggable None]))
     = [''AWSPinpoint'', ''p'']
   \<and> addPluggable (Some wrong_provider) (constructor memory_storage)
     = (Inr (), constructor memory_storage)"
  using registry_only_holds_accepted_providers
     [of example_env memory_storage
       "[AddPluggable (Some wrong_provider), Configure [],
         AddPluggable (Some (example_provider ''p'' [])), AddPluggable None]"
       wrong_provider "constructor memory_storage"]
  by (simp add: run_def example_defs wrong_provider_def constructor_def addPluggable_def
      configure_def obj_delete_def obj_get_def listenForAnalyticsEvents_def)

text \<open>
  Claim C2 says that \<^verbatim>\<open>addPluggable\<close> configures an accepted provider with the merge
  \<^verbatim>\<open>{...config, ...(config[name] ?? {})}\<close>. The method passes \<^verbatim>\<open>config[name]\<close> alone: on
  a constructed engine the provider \<^verbatim>\<open>P1\<close> is configured with \<^verbatim>\<open>undefined\<close>. The merge
  is what \<^verbatim>\<open>configure\<close> passes to the providers already registered: called next, it
  configures the same provider with the object holding the \<^verbatim>\<open>storage\<close> key.
\<close>

theorem addPluggable_configures_with_subconfig_only:
  "trace (snd (addPluggable (Some (example_provider ''P1'' [])) (constructor memory_storage)))
     = [ProviderConfigure ''P1'' JUndefined]
   \<and> trace (snd (configure example_env [(''listenForAnalyticsEvents'', JBool False)]
        (snd (addPluggable (Some (example_provider ''P1'' [])) (constructor memory_storage)))))
     = [ProviderConfigure ''P1'' JUndefined,
        ProviderConfigure ''P1'' (JObj [(''storage'', JStorage memory_storage)])]"
  by (simp add: engine_defs example_defs)

subsection \<open>The configuration\<close>

lemma config_addPluggable: "config (snd (addPluggable pluggable s)) = config s"
  by (auto simp: addPluggable_def Let_def split: option.splits)

lemma config_configure:
  "config (snd (configure E cfg s)) =
   obj_assign (config s) (obj_delete ''listenForAnalyticsEvents'' cfg)"
  by (auto simp: configure_def Let_def addPluggable_def split: prod.splits option.splits sum.splits)

lemma fst_configure:
  "fst (configure E cfg s) = Inr c \<Longrightarrow> c = config (snd (configure E cfg s))"
  by (auto simp: configure_def Let_def split: prod.splits option.splits sum.splits if_splits)

lemma step_preserves:
  assumes cache: "\<And>E c s. Q (config s) \<Longrightarrow> Q (config (cache_op E c s))"
    and configure: "\<And>cfg. a = Configure cfg \<Longrightarrow>
           Q (obj_assign (config s) (obj_delete ''listenForAnalyticsEvents'' cfg))"
    and start: "Q (config s)"
  shows "Q (config (step E s a))"
proof (cases a)
  case (Configure cfg)
  then show ?thesis using configure by (simp add: config_configure)
next
  case (AddPluggable p)
  then show ?thesis using start by (simp add: config_addPluggable)
next
  case (RemovePluggable n)
  then show ?thesis using start by (simp add: removePluggable_def)
next
  case SyncMessages
  then show ?thesis using pipeline_preserves(1) [of Q, OF cache start] by simp
next
  case ClearMessages
  then show ?thesis using pipeline_preserves(2) [of Q, OF cache start] by simp
next
  case (DispatchEvent ev)
  then show ?thesis using pipeline_preserves(3) [of Q, OF cache start] by simp
next
  case (HubAnalytics pl)
  then show ?thesis
    using pipeline_preserves(3) [of Q, OF cache start] start by (simp add: analyticsListener_def)
qed (use start in \<open>simp_all add: notifyMessageDisplayed_def notifyMessageDismissed_def
      notifyMessageActionTaken_def\<close>)

lemma foldl_step_preserves:
  assumes cache: "\<And>E c r. Q (config r) \<Longrightarrow> Q (config (cache_op E c r))"
    and configure: "\<And>cfg c0. ok (Configure cfg) \<Longrightarrow> Q c0 \<Longrightarrow>
           Q (obj_assign c0 (obj_delete ''listenForAnalyticsEvents'' cfg))"
    and start: "Q (config s)"
    and acts: "\<forall>a\<in>set acts. ok a"
  shows "Q (config (foldl (step E) s acts))"
  using start acts
proof (induction acts arbitrary: s)
  case Nil
  then show ?case by simp
next
  case (Cons a acts)
  have "Q (config (step E s a))"
  proof (rule step_preserves [of Q, OF cache])
    show "Q (config s)" by (rule Cons.prems(1))
  next
    fix cfg
    assume "a = Configure cfg"
    then have "ok (Configure cfg)" using Cons.prems(2) by simp
    then show "Q (obj_assign (config s) (obj_delete ''listenForAnalyticsEvents'' cfg))"
      using Cons.prems(1) by (rule configure)
  qed
  then have "Q (config (foldl (step E) (step E s a) acts))"
    using Cons.prems(2) by (intro Cons.IH) simp_all
  then show ?case by simp
qed

text \<open>
  Claim C9. Whatever object \<^verbatim>\<open>configure\<close> is given, on an engine reached by any run: the
  stored configuration has no \<^verbatim>\<open>listenForAnalyticsEvents\<close> key, the configuration
  returned is the stored one, and the \<^verbatim>\<open>storage\<close> key is present. A call that provides
  no \<^verbatim>\<open>storage\<close> key leaves the value under \<^verbatim>\<open>storage\<close> as it was; and as long as no
  \<^verbatim>\<open>configure\<close> of the run provided that key, the value is still the storage object the
  constructor installed (its stored texts and call count may have moved on).
\<close>

theorem configure_effective_config:
  "''listenForAnalyticsEvents'' \<notin> fst ` set (config (snd (configure E cfg (run E st acts))))
   \<and> (\<forall>c. fst (configure E cfg (run E st acts)) = Inr c \<longrightarrow>
          c = config (snd (configure E cfg (run E st acts))))
   \<and> ''storage'' \<in> fst ` set (config (snd (configure E cfg (run E st acts))))
   \<and> (''storage'' \<notin> fst ` set cfg \<longrightarrow>
        obj_get (config (snd (configure E cfg s))) ''storage'' = obj_get (config s) ''storage'')
   \<and> ((\<forall>a\<in>set acts. \<not> overrides_storage a) \<longrightarrow>
        (\<exists>st'. obj_get (config (run E st acts)) ''storage'' = JStorage st'
            \<and> has_sync st' = has_sync st \<and> fails st' = fails st))"
proof -
  let ?s = "run E st acts"
  have no_key: "''listenForAnalyticsEvents'' \<notin> fst ` set (config ?s)"
    unfolding run_def
    by (rule foldl_step_preserves
          [where Q = "\<lambda>cfg. ''listenForAnalyticsEvents'' \<notin> fst ` set cfg" and ok = "\<lambda>a. True"])
       (auto simp: keys_cache_op keys_obj_assign keys_obj_delete constructor_def)
  have storage_key: "''storage'' \<in> fst ` set (config ?s)"
    unfolding run_def
    by (rule foldl_step_preserves
          [where Q = "\<lambda>cfg. ''storage'' \<in> fst ` set cfg" and ok = "\<lambda>a. True"])
       (auto simp: keys_cache_op keys_obj_assign keys_obj_delete constructor_def)
  have kept: "obj_get (obj_assign c0 (obj_delete ''listenForAnalyticsEvents'' cfg')) ''storage''
              = obj_get c0 ''storage''"
    if "''storage'' \<notin> fst ` set cfg'" for c0 cfg'
    using that by (simp add: obj_get_obj_assign_other keys_obj_delete)
  have same: "\<exists>st'. obj_get (config ?s) ''storage'' = JStorage st'
            \<and> has_sync st' = has_sync st \<and> fails st' = fails st"
    if "\<forall>a\<in>set acts. \<not> overrides_storage a"
    unfolding run_def
  proof (rule foldl_step_preserves
          [where Q = "\<lambda>cfg. \<exists>st'. obj_get cfg ''storage'' = JStorage st'
                 \<and> has_sync st' = has_sync st \<and> fails st' = fails st"
             and ok = "\<lambda>a. \<not> overrides_storage a"])
    show "\<forall>a\<in>set acts. \<not> overrides_storage a" by (rule that)
  next
    show "\<exists>st'. obj_get (config (constructor st)) ''storage'' = JStorage st'
            \<and> has_sync st' = has_sync st \<and> fails st' = fails st"
      by (simp add: constructor_def obj_get_def)
  qed (simp_all add: same_storage_cache_op kept)
  show ?thesis
    using no_key storage_key same
    by (auto simp: config_configure keys_obj_assign keys_obj_delete kept dest: fst_configure)
qed

text \<open>
  Two calls of \<^verbatim>\<open>configure\<close>, both with the \<^verbatim>\<open>listenForAnalyticsEvents\<close> key: the
  configuration ends with the keys \<^verbatim>\<open>storage\<close> and \<^verbatim>\<open>region\<close>.
\<close>

theorem configure_effective_config_witness:
  "map fst (config (snd (configure example_env
       [(''listenForAnalyticsEvents'', JBool True), (''region'', JStr ''eu'')]
       (run example_env memory_storage
          [Configure [(''listenForAnalyticsEvents'', JBool False)], ClearMessages]))))
   = [''storage'', ''region'']"
  using configure_effective_config [of example_env
       "[(''listenForAnalyticsEvents'', JBool True), (''region'', JStr ''eu'')]"
       memory_storage
       "[Configure [(''listenForAnalyticsEvents'', JBool False)], ClearMessages]"]
  by (simp add: engine_defs example_defs Let_def)

subsection \<open>The pieces of a branch\<close>









subsection \<open>What every schedule preserves\<close>















subsection \<open>The schedule that runs the branches in turn\<close>









subsection \<open>The schedule of the code on two providers\<close>

text \<open>
  With two providers, a storage that has \<^verbatim>\<open>sync\<close> and an engine not yet synced, the
  code starts both branches before either resumes: both find the flag false and each
  calls \<^verbatim>\<open>sync\<close>.
\<close>

lemma sync_once_per_branch:
  "map_option (\<lambda>(r, s'). sync_calls s')
     (dispatchEvent_scheduled example_env (JStr ''opened'') [0, 1, 0, 1, 0, 1, 0, 1, 0, 1]
        (run example_env memory_storage
           [AddPluggable (Some (example_provider ''P1'' [JStr ''a''])),
            AddPluggable (Some (example_provider ''P2'' []))]))
   = Some 2"
  by (simp add: schedule_defs engine_defs example_defs sync_calls_def Let_def)

text \<open>
  With a storage without \<^verbatim>\<open>sync\<close> the first branch sets the flag and suspends, so the
  second provider is asked, and settles, first: when both reject, the code rejects with
  the error of the second. Run in turn, the first provider's rejection comes first.
\<close>

lemma rejection_first_in_time:
  "map_option fst
     (dispatchEvent_scheduled example_env (JStr ''opened'') [0, 1, 0, 1, 0, 1, 0]
        (run example_env local_storage
           [AddPluggable (Some (rejecting_provider ''P1'' TypeError)),
            AddPluggable (Some (rejecting_provider ''P2'' ProviderError))]))
   = Some (Inl ProviderError)
   \<and> fst (dispatchEvent example_env (JStr ''opened'')
        (run example_env local_storage
           [AddPluggable (Some (rejecting_provider ''P1'' TypeError)),
            AddPluggable (Some (rejecting_provider ''P2'' ProviderError))]))
     = Inl TypeError"
  by (simp add: schedule_defs engine_defs example_defs local_storage_def
      rejecting_provider_def Let_def)

subsection \<open>Dispatch\<close>



text \<open>
  Claim C1 says that \<^verbatim>\<open>dispatchEvent\<close> on an event whose discriminator is not
  \<^verbatim>\<open>record\<close> calls no provider, reads no cache and publishes nothing.
  \<^verbatim>\<open>dispatchEvent\<close> does not look at its event: given \<^verbatim>\<open>{event: "other", data: {}}\<close>
  and one registered provider, it reads the provider's cache slot, calls the provider
  and publishes what the provider returns.
\<close>

theorem dispatchEvent_does_not_filter:
  "trace (snd (dispatchEvent example_env other_event
       (snd (addPluggable (Some (example_provider ''P1'' [JStr ''a'']))
              (constructor memory_storage)))))
   = [ProviderConfigure ''P1'' JUndefined,
      StorageSync,
      StorageGetItem ''P1_inAppMessages'',
      ProviderProcessInAppMessages ''P1'' (JArr []) other_event,
      NotifyMessageEventListeners (JArr [JStr ''a'']) MESSAGES_RECEIVED]"
  by (simp add: engine_defs example_defs)

text \<open>
  Claim C1, amended. The discriminator is tested by \<^verbatim>\<open>analyticsListener\<close>: on a Hub
  payload whose \<^verbatim>\<open>event\<close> is not \<^verbatim>\<open>record\<close> it does not call \<^verbatim>\<open>dispatchEvent\<close> and the
  engine, trace included, is as it was: no provider is called, no cache is read, nothing
  is published.
\<close>

theorem analyticsListener_ignores_other_events:
  "event pl \<noteq> ''record'' \<Longrightarrow> analyticsListener E pl s = s"
  by (simp add: analyticsListener_def)

theorem analyticsListener_ignores_other_events_witness:
  "trace (analyticsListener example_env \<lparr>event = ''other'', data = JObj []\<rparr>
       (snd (addPluggable (Some (example_provider ''P1'' [JStr ''a'']))
              (constructor memory_storage))))
   = [ProviderConfigure ''P1'' JUndefined]"
proof -
  have h: "event \<lparr>event = ''other'', data = JObj []\<rparr> \<noteq> ''record''" by simp
  show ?thesis
    using analyticsListener_ignores_other_events [OF h, of example_env
        "snd (addPluggable (Some (example_provider ''P1'' [JStr ''a'']))
              (constructor memory_storage))"]
    by (simp add: addPluggable_def constructor_def example_defs obj_get_def)
qed

end
